theory Spec2Isabelle
  imports Main "HOL-Library.Word"
begin

unbundle bit_operations_syntax

section \<open>Data model\<close>

text \<open>
  Python's \<open>bytes\<close> is a sequence of octets and Python's \<open>int\<close> is unbounded.
  A Python \<open>str\<close> is a sequence of Unicode code points, so \<open>len\<close> counts code
  points and \<open>encode('utf-8')\<close> may produce more octets than that.
\<close>

type_synonym byte = "8 word"
type_synonym bytes = "byte list"
type_synonym pystr = "nat list"

text \<open>
  The exceptions the program can raise. The three \<open>ValueError\<close>s are the three
  \<open>raise\<close> statements of \<open>thor_address_to_bytes\<close>, in source order, with the value
  each message interpolates; \<open>UnicodeEncodeError\<close> comes from \<open>str.encode\<close>.
\<close>

datatype error =
    ValueError_prefix pystr
  | ValueError_length nat
  | ValueError_hex
  | UnicodeEncodeError

definition str_literal :: "string \<Rightarrow> pystr" where
  "str_literal s = map of_char s"

section \<open>Library functions the program calls\<close>

text \<open>
  \<open>struct.pack('<B', v)\<close> is the single octet \<open>v\<close>; it raises outside \<open>0..255\<close>.
  Every call in the program passes a constant below 256, \<open>(value & 0x7F) | 0x80\<close> or
  \<open>value & 0x7F\<close>; lemma \<open>pack_B_args_in_range\<close> shows those are in range.
\<close>

definition pack_B :: "int \<Rightarrow> bytes" where
  "pack_B v = [word_of_int v]"

text \<open>
  \<open>str.encode('utf-8')\<close>: one to four octets per code point; the surrogate code points
  \<open>U+D800..U+DFFF\<close> cannot be encoded and raise. A Python string holds no value
  from \<open>0x110000\<close> on; the model rejects such a number as well.
\<close>

definition utf8_char :: "nat \<Rightarrow> error + bytes" where
  "utf8_char c =
     (if c < 0x80 then Inr [of_nat c]
      else if c < 0x800 then Inr [of_nat (0xC0 + c div 64), of_nat (0x80 + c mod 64)]
      else if 0xD800 \<le> c \<and> c \<le> 0xDFFF then Inl UnicodeEncodeError
      else if c < 0x10000 then
        Inr [of_nat (0xE0 + c div 4096), of_nat (0x80 + c div 64 mod 64), of_nat (0x80 + c mod 64)]
      else if c < 0x110000 then
        Inr [of_nat (0xF0 + c div 262144), of_nat (0x80 + c div 4096 mod 64),
             of_nat (0x80 + c div 64 mod 64), of_nat (0x80 + c mod 64)]
      else Inl UnicodeEncodeError)"

fun encode_utf8 :: "pystr \<Rightarrow> error + bytes" where
  "encode_utf8 [] = Inr []"
| "encode_utf8 (c # cs) =
     (case utf8_char c of
        Inl e \<Rightarrow> Inl e
      | Inr b \<Rightarrow> (case encode_utf8 cs of Inl e \<Rightarrow> Inl e | Inr bs \<Rightarrow> Inr (b @ bs)))"

text \<open>
  \<open>bytes.fromhex\<close>: two hexadecimal digits per octet, upper or lower case. ASCII
  whitespace (space, and since Python 3.7 also tab, newline, vertical tab, form feed
  and carriage return) standing before a pair of digits or at the end is skipped;
  anything else, and a lone digit, raises \<open>ValueError\<close> (here \<open>None\<close>).
\<close>

definition is_space :: "nat \<Rightarrow> bool" where
  "is_space c \<longleftrightarrow> c = 32 \<or> (9 \<le> c \<and> c \<le> 13)"

definition digit_value :: "nat \<Rightarrow> nat option" where
  "digit_value c =
     (if 48 \<le> c \<and> c \<le> 57 then Some (c - 48)
      else if 97 \<le> c \<and> c \<le> 102 then Some (c - 87)
      else if 65 \<le> c \<and> c \<le> 70 then Some (c - 55)
      else None)"

fun fromhex :: "pystr \<Rightarrow> bytes option" where
  "fromhex [] = Some []"
| "fromhex [c] = (if is_space c then Some [] else None)"
| "fromhex (c # d # cs) =
     (if is_space c then fromhex (d # cs)
      else case (digit_value c, digit_value d) of
             (Some hi, Some lo) \<Rightarrow> map_option ((#) (of_nat (16 * hi + lo))) (fromhex cs)
           | _ \<Rightarrow> None)"

text \<open>
  \<open>base64.b64encode(b).decode('utf-8')\<close>: the standard alphabet, three octets to four
  characters, padded with \<open>=\<close> (code point 61). The output is ASCII, so decoding it
  cannot fail.
\<close>

definition b64_alphabet :: string where
  "b64_alphabet = ''ABCDEFGHIJKLMNOPQRSTUVWXYZabcdefghijklmnopqrstuvwxyz0123456789+/''"

definition b64_char :: "nat \<Rightarrow> nat" where
  "b64_char i = of_char (b64_alphabet ! (i mod 64))"

fun b64encode :: "bytes \<Rightarrow> pystr" where
  "b64encode [] = []"
| "b64encode [a] =
     (let n = unat a in [b64_char (n div 4), b64_char (n mod 4 * 16), 61, 61])"
| "b64encode [a, b] =
     (let n = unat a * 256 + unat b
      in [b64_char (n div 1024), b64_char (n div 16 mod 64), b64_char (n mod 16 * 4), 61])"
| "b64encode (a # b # c # rest) =
     (let n = unat a * 65536 + unat b * 256 + unat c
      in [b64_char (n div 262144), b64_char (n div 4096 mod 64),
          b64_char (n div 64 mod 64), b64_char (n mod 64)] @ b64encode rest)"

text \<open>\<open>str(n)\<close> for a length: its decimal digits.\<close>

fun str_nat :: "nat \<Rightarrow> pystr" where
  "str_nat n = (if n < 10 then [48 + n] else str_nat (n div 10) @ [48 + n mod 10])"

text \<open>
  \<open>print\<close> appends a line to standard output, the only state the program touches.
  The stream is taken to accept every string.
\<close>

record world =
  stdout :: "pystr list"

definition print :: "pystr \<Rightarrow> world \<Rightarrow> world" where
  "print line w = w\<lparr>stdout := stdout w @ [line]\<rparr>"

section \<open>The encoder: class \<open>THORChainProtobuf\<close>\<close>

function encode_varint_loop :: "bytes \<Rightarrow> int \<Rightarrow> bytes" where
  "encode_varint_loop result val =
     (if val > 127
      then encode_varint_loop (result @ pack_B ((val AND 0x7F) OR 0x80)) (drop_bit 7 val)
      else result @ pack_B (val AND 0x7F))"
  by pat_completeness auto
termination
  by (relation "measure (\<lambda>(r, v). nat v)") (auto simp: drop_bit_eq_div)

definition encode_varint :: "int \<Rightarrow> bytes" where
  "encode_varint val = encode_varint_loop [] val"

definition startswith :: "pystr \<Rightarrow> pystr \<Rightarrow> bool" where
  "startswith s p \<longleftrightarrow> take (length p) s = p"

definition thor_address_to_bytes :: "pystr \<Rightarrow> error + bytes" where
  "thor_address_to_bytes bech32_addr =
     (if \<not> startswith bech32_addr (str_literal ''thor1'')
      then Inl (ValueError_prefix (take 5 bech32_addr))
      else let hex_data = drop 5 bech32_addr
           in if length hex_data \<noteq> 40 then Inl (ValueError_length (length hex_data))
              else case fromhex hex_data of
                     None \<Rightarrow> Inl ValueError_hex
                   | Some b \<Rightarrow> Inr b)"

definition create_thor_msgsend :: "pystr \<Rightarrow> pystr \<Rightarrow> error + bytes" where
  "create_thor_msgsend from_addr to_addr =
     (case thor_address_to_bytes from_addr of
        Inl e \<Rightarrow> Inl e
      | Inr from_bytes \<Rightarrow>
     (case thor_address_to_bytes to_addr of
        Inl e \<Rightarrow> Inl e
      | Inr to_bytes \<Rightarrow>
          let from_field = pack_B 0x0a @ encode_varint (int (length from_bytes)) @ from_bytes;
              to_field = pack_B 0x12 @ encode_varint (int (length to_bytes)) @ to_bytes
          in Inr (from_field @ to_field)))"

definition create_any_message :: "pystr \<Rightarrow> bytes \<Rightarrow> error + bytes" where
  "create_any_message type_url message_bytes =
     (case encode_utf8 type_url of
        Inl e \<Rightarrow> Inl e
      | Inr type_url_bytes \<Rightarrow>
          let type_url_field =
                pack_B 0x0a @ encode_varint (int (length type_url_bytes)) @ type_url_bytes;
              value_field =
                pack_B 0x12 @ encode_varint (int (length message_bytes)) @ message_bytes
          in Inr (type_url_field @ value_field))"

text \<open>The \<open>for\<close> loops that append one field per list element are left folds.\<close>

definition create_tx_body :: "bytes list \<Rightarrow> pystr \<Rightarrow> error + bytes" where
  "create_tx_body messages memo =
     (let messages_field =
            foldl (\<lambda>messages_field msg_bytes.
                     messages_field
                       @ (pack_B 0x0a @ encode_varint (int (length msg_bytes)) @ msg_bytes))
              [] messages
      in case encode_utf8 memo of
           Inl e \<Rightarrow> Inl e
         | Inr memo_bytes \<Rightarrow>
             let memo_field = pack_B 0x12 @ encode_varint (int (length memo_bytes)) @ memo_bytes;
                 timeout_field = pack_B 0x18 @ encode_varint 0
             in Inr (messages_field @ memo_field @ timeout_field))"

definition create_auth_info :: "int \<Rightarrow> int \<Rightarrow> bytes" where
  "create_auth_info sequence gas_limit =
     (let signer_info = pack_B 0x18 @ encode_varint sequence;
          fee = pack_B 0x10 @ encode_varint gas_limit;
          signer_infos_field = pack_B 0x0a @ encode_varint (int (length signer_info)) @ signer_info;
          fee_field = pack_B 0x12 @ encode_varint (int (length fee)) @ fee
      in signer_infos_field @ fee_field)"

definition create_tx_raw :: "bytes \<Rightarrow> bytes \<Rightarrow> bytes list \<Rightarrow> bytes" where
  "create_tx_raw tx_body auth_info signatures =
     (let body_field = pack_B 0x0a @ encode_varint (int (length tx_body)) @ tx_body;
          auth_field = pack_B 0x12 @ encode_varint (int (length auth_info)) @ auth_info;
          signatures_field =
            foldl (\<lambda>signatures_field sig.
                     signatures_field @ (pack_B 0x1a @ encode_varint (int (length sig)) @ sig))
              [] signatures
      in body_field @ auth_field @ signatures_field)"

text \<open>
  The progress lines \<open>f"<box> {label}: {n} {unit}"\<close>, where the box is U+1F4E6; the
  first line starts with the wrench U+1F527.
\<close>

definition size_line :: "string \<Rightarrow> nat \<Rightarrow> string \<Rightarrow> pystr" where
  "size_line label n unit =
     [0x1F4E6] @ str_literal '' '' @ str_literal label @ str_literal '': '' @ str_nat n
       @ str_literal '' '' @ str_literal unit"

text \<open>
  The defaults \<open>sequence = 0\<close> and \<open>gas_limit = 200000\<close> of \<open>create_auth_info\<close>
  are written out at its call. The result is paired with the state of standard output;
  an exception leaves the lines printed before it.
\<close>

definition create_thor_transaction ::
    "pystr \<Rightarrow> pystr \<Rightarrow> pystr \<Rightarrow> world \<Rightarrow> (error + pystr) \<times> world" where
  "create_thor_transaction from_addr to_addr memo w0 =
     (let w1 = print ([0x1F527] @ str_literal '' Creating THORChain transaction'') w0;
          w2 = print (str_literal ''   From: '' @ from_addr) w1;
          w3 = print (str_literal ''   To: '' @ to_addr) w2;
          w4 = print (str_literal ''   Memo: '' @ memo) w3
      in case create_thor_msgsend from_addr to_addr of
           Inl e \<Rightarrow> (Inl e, w4)
         | Inr msg_send \<Rightarrow>
      let w5 = print (size_line ''MsgSend'' (length msg_send) ''bytes'') w4
      in case create_any_message (str_literal ''/types.MsgSend'') msg_send of
           Inl e \<Rightarrow> (Inl e, w5)
         | Inr any_msg \<Rightarrow>
      let w6 = print (size_line ''Any message'' (length any_msg) ''bytes'') w5
      in case create_tx_body [any_msg] memo of
           Inl e \<Rightarrow> (Inl e, w6)
         | Inr tx_body \<Rightarrow>
      let w7 = print (size_line ''TxBody'' (length tx_body) ''bytes'') w6;
          auth_info = create_auth_info 0 200000;
          w8 = print (size_line ''AuthInfo'' (length auth_info) ''bytes'') w7;
          signature = replicate 64 (0 :: byte);
          w9 = print (size_line ''Signature'' (length signature) ''bytes'') w8;
          tx_raw = create_tx_raw tx_body auth_info [signature];
          w10 = print (size_line ''TxRaw'' (length tx_raw) ''bytes'') w9;
          encoded_tx = b64encode tx_raw;
          w11 = print (size_line ''Base64 encoded'' (length encoded_tx) ''chars'') w10
      in (Inr encoded_tx, w11))"

section \<open>Reference decoder\<close>

text \<open>
  The program only writes. What a parser recovers is stated against this reader of the
  protobuf wire format: a base-128 varint, and a message as a sequence of fields, each
  a tag varint \<open>(field_number << 3) | wire_type\<close> followed by a varint (wire type 0)
  or by a length varint and that many octets (wire type 2). Field number 0, any other
  wire type and a truncated field are parse errors.
\<close>

fun decode_varint :: "bytes \<Rightarrow> (int \<times> bytes) option" where
  "decode_varint [] = None"
| "decode_varint (b # bs) =
     (if bit b 7
      then (case decode_varint bs of
              None \<Rightarrow> None
            | Some (v, rest) \<Rightarrow> Some (uint (b AND 0x7F) + 128 * v, rest))
      else Some (uint b, bs))"

datatype wire_value = Varint int | LengthDelimited bytes

function parse_fields :: "bytes \<Rightarrow> (int \<times> wire_value) list option" where
  "parse_fields [] = Some []"
| "parse_fields (b # bs) =
     (case decode_varint (b # bs) of
        None \<Rightarrow> None
      | Some (tag, rest) \<Rightarrow>
          if drop_bit 3 tag = 0 then None
          else if tag AND 7 = 0 then
            (case decode_varint rest of
               None \<Rightarrow> None
             | Some (v, rest') \<Rightarrow>
                 map_option ((#) (drop_bit 3 tag, Varint v)) (parse_fields rest'))
          else if tag AND 7 = 2 then
            (case decode_varint rest of
               None \<Rightarrow> None
             | Some (n, rest') \<Rightarrow>
                 if nat n \<le> length rest'
                 then map_option ((#) (drop_bit 3 tag, LengthDelimited (take (nat n) rest')))
                        (parse_fields (drop (nat n) rest'))
                 else None)
          else None)"
  by pat_completeness auto
termination
proof -
  have shorter: "length r < length xs" if "decode_varint xs = Some (v, r)" for xs v r
    using that
    by (induction xs arbitrary: v) (auto split: if_splits option.splits)
  show ?thesis
    by (relation "measure length") (auto simp del: decode_varint.simps dest!: shorter)
qed

text \<open>
  Modelled from the spec: \<open>WriteLengthDelimited(field_number, payload)\<close> emits
  \<open>varint(tag)\<close>, then \<open>varint(len(payload))\<close>, then the payload, where
  \<open>tag = (field_number << 3) | 2\<close>. The program has no function for it: each
  composer writes the tag octet as a literal (\<open>0x0a\<close>, \<open>0x12\<close>, \<open>0x1a\<close>) before
  \<open>encode_varint(len(payload))\<close> and the payload. The varint is the program's.
\<close>

definition write_length_delimited :: "int \<Rightarrow> bytes \<Rightarrow> bytes" where
  "write_length_delimited field_number payload =
     encode_varint (push_bit 3 field_number OR 2) @ encode_varint (int (length payload)) @ payload"

text \<open>Python's \<open>int.bit_length\<close>: the number of binary digits of the absolute value.\<close>

fun bit_length_nat :: "nat \<Rightarrow> nat" where
  "bit_length_nat n = (if n = 0 then 0 else Suc (bit_length_nat (n div 2)))"

definition bit_length :: "int \<Rightarrow> nat" where
  "bit_length v = bit_length_nat (nat \<bar>v\<bar>)"

text \<open>
  The addresses the spec calls well formed: the prefix \<open>thor1\<close> and then exactly 40
  hexadecimal digits.
\<close>

definition is_hex_digit :: "nat \<Rightarrow> bool" where
  "is_hex_digit c \<longleftrightarrow> (48 \<le> c \<and> c \<le> 57) \<or> (97 \<le> c \<and> c \<le> 102) \<or> (65 \<le> c \<and> c \<le> 70)"

definition well_formed_address :: "pystr \<Rightarrow> bool" where
  "well_formed_address a \<longleftrightarrow>
     startswith a (str_literal ''thor1'') \<and> length (drop 5 a) = 40
       \<and> list_all is_hex_digit (drop 5 a)"

text \<open>The address of the docstrings and of the end-to-end scenario.\<close>

definition example_address :: pystr where
  "example_address = str_literal ''thor1a3eb9d2cbea51896c33209f2bb5ff979a44201a2''"

section \<open>The varint encoder\<close>

lemma drop_bit_7_less: "127 < (v::int) \<Longrightarrow> nat (drop_bit 7 v) < nat v"
  by (simp add: drop_bit_eq_div)

lemma encode_varint_loop_acc:
  "encode_varint_loop r v = r @ encode_varint_loop [] v"
proof (induction "nat v" arbitrary: r v rule: less_induct)
  case less
  show ?case
  proof (cases "v > 127")
    case True
    let ?b = "pack_B ((v AND 0x7F) OR 0x80)"
    let ?w = "drop_bit 7 v"
    note IH = less [OF drop_bit_7_less [OF True]]
    have "encode_varint_loop r v = encode_varint_loop (r @ ?b) ?w"
      using True by (subst encode_varint_loop.simps) simp
    also have "\<dots> = r @ ?b @ encode_varint_loop [] ?w"
      using IH [of "r @ ?b"] by simp
    also have "?b @ encode_varint_loop [] ?w = encode_varint_loop ([] @ ?b) ?w"
      using IH [of "[] @ ?b"] by simp
    also have "\<dots> = encode_varint_loop [] v"
      using True by (subst (2) encode_varint_loop.simps) simp
    finally show ?thesis .
  next
    case False
    then show ?thesis
      by (subst encode_varint_loop.simps, subst (2) encode_varint_loop.simps) simp
  qed
qed

lemma encode_varint_unfold:
  "encode_varint v =
     (if v > 127 then word_of_int ((v AND 0x7F) OR 0x80) # encode_varint (drop_bit 7 v)
      else [word_of_int (v AND 0x7F)])"
proof (cases "v > 127")
  case True
  have "encode_varint v = encode_varint_loop ([] @ pack_B ((v AND 0x7F) OR 0x80)) (drop_bit 7 v)"
    unfolding encode_varint_def using True by (subst encode_varint_loop.simps) simp
  also have "\<dots> = pack_B ((v AND 0x7F) OR 0x80) @ encode_varint (drop_bit 7 v)"
    unfolding encode_varint_def using encode_varint_loop_acc [of "[] @ pack_B ((v AND 0x7F) OR 0x80)"] by simp
  finally show ?thesis using True by (simp add: pack_B_def)
next
  case False
  then show ?thesis
    unfolding encode_varint_def by (subst encode_varint_loop.simps) (simp add: pack_B_def)
qed

lemma encode_varint_small: "v \<le> 127 \<Longrightarrow> encode_varint v = [word_of_int (v AND 0x7F)]"
  by (subst encode_varint_unfold) simp

lemma encode_varint_big:
  "127 < v \<Longrightarrow> encode_varint v = word_of_int ((v AND 0x7F) OR 0x80) # encode_varint (drop_bit 7 v)"
  by (subst encode_varint_unfold) simp

lemma and_7F_int: "(v::int) AND 0x7F = v mod 128"
proof -
  have m: "(0x7F::int) = mask 7" by (simp add: mask_eq_exp_minus_1)
  have "v AND mask 7 = v mod 2 ^ 7"
    by (simp only: take_bit_eq_mask [symmetric] take_bit_eq_mod)
  then show ?thesis unfolding m by simp
qed

lemma bit_128_int: "bit (128::int) n \<longleftrightarrow> n = 7"
proof -
  have e: "(128::int) = 2 ^ 7" by simp
  show ?thesis unfolding e by (simp only: bit_exp_iff) simp
qed

lemma bit_127_int: "bit (127::int) n \<longleftrightarrow> n < 7"
proof -
  have m: "(127::int) = mask 7" by (simp add: mask_eq_exp_minus_1)
  show ?thesis unfolding m by (simp only: bit_mask_iff) simp
qed

lemma cont_byte_bit7: "bit (word_of_int ((v AND 0x7F) OR 0x80) :: byte) 7"
  by (simp add: bit_word_of_int_iff bit_or_iff bit_128_int)

lemma last_byte_bit7: "\<not> bit (word_of_int (v AND 0x7F) :: byte) 7"
  by (simp add: bit_word_of_int_iff bit_and_iff bit_127_int)

lemma or_80_int: "(v::int) mod 128 OR 0x80 = v mod 128 + 128"
proof -
  have "bit (v mod 128) n \<Longrightarrow> n < 7" for n
    using bit_take_bit_iff [of 7 v n] by (simp add: take_bit_eq_mod)
  then have "(v mod 128) AND 128 = 0"
    by (intro bit_eqI) (auto simp: bit_and_iff bit_128_int)
  then show ?thesis
    using plus_and_or [of "v mod 128" 128] by simp
qed

lemma cont_byte_uint: "uint (word_of_int ((v AND 0x7F) OR 0x80) :: byte) = v mod 128 + 128"
proof -
  have "0 \<le> v mod 128" "v mod 128 < 128" by simp_all
  then have "(v mod 128 + 128) mod 256 = v mod 128 + 128" by simp
  then show ?thesis
    unfolding and_7F_int or_80_int by (simp only: uint_word_of_int take_bit_eq_mod) simp
qed

lemma last_byte_uint: "uint (word_of_int (v AND 0x7F) :: byte) = v mod 128"
proof -
  have "0 \<le> v mod 128" "v mod 128 < 128" by simp_all
  then have "(v mod 128) mod 256 = v mod 128" by simp
  then show ?thesis
    by (simp add: and_7F_int uint_word_of_int take_bit_eq_mod)
qed

lemma low7_uint: "uint ((b::byte) AND 0x7F) = uint b mod 128"
  by (simp add: and_7F_int unsigned_and_eq)

lemma cont_byte_low: "uint ((word_of_int ((v AND 0x7F) OR 0x80) :: byte) AND 0x7F) = v mod 128"
  by (simp only: low7_uint cont_byte_uint) simp

lemma decode_encode_varint:
  "0 \<le> v \<Longrightarrow> decode_varint (encode_varint v @ rest) = Some (v, rest)"
proof (induction "nat v" arbitrary: v rule: less_induct)
  case less
  show ?case
  proof (cases "v > 127")
    case True
    let ?w = "drop_bit 7 v"
    have w: "0 \<le> ?w" using less.prems by simp
    have IH: "decode_varint (encode_varint ?w @ rest) = Some (?w, rest)"
      using less.hyps [OF drop_bit_7_less [OF True] w] .
    have "v mod 128 + 128 * ?w = v" by (simp add: drop_bit_eq_div)
    then show ?thesis
      by (simp add: encode_varint_big [OF True] cont_byte_bit7 cont_byte_low IH
          del: drop_bit_int_def)
  next
    case False
    then have "v mod 128 = v" using less.prems by simp
    then show ?thesis
      using False by (simp add: encode_varint_small last_byte_bit7 last_byte_uint)
  qed
qed

declare bit_length_nat.simps [simp del]

lemma bit_length_nat_0 [simp]: "bit_length_nat 0 = 0"
  by (simp add: bit_length_nat.simps)

lemma bit_length_nat_pos: "0 < n \<Longrightarrow> bit_length_nat n = Suc (bit_length_nat (n div 2))"
  by (subst bit_length_nat.simps) simp

lemma bit_length_nat_le: "bit_length_nat n \<le> k \<longleftrightarrow> n < 2 ^ k"
proof (induction n arbitrary: k rule: bit_length_nat.induct)
  case (1 n)
  show ?case
  proof (cases "n = 0")
    case True
    then show ?thesis by simp
  next
    case False
    show ?thesis
    proof (cases k)
      case 0
      then show ?thesis using False by (simp add: bit_length_nat_pos)
    next
      case (Suc j)
      have "bit_length_nat (n div 2) \<le> j \<longleftrightarrow> n div 2 < 2 ^ j"
        using "1.IH" [OF False] .
      moreover have "n div 2 < 2 ^ j \<longleftrightarrow> n < 2 * 2 ^ j" by auto
      ultimately show ?thesis using False Suc by (simp add: bit_length_nat_pos)
    qed
  qed
qed

lemma bit_length_nat_div_128:
  assumes "128 \<le> n"
  shows "bit_length_nat n = 7 + bit_length_nat (n div 128)"
proof -
  have pos: "0 < n" "0 < n div 2" "0 < n div 4" "0 < n div 8" "0 < n div 16" "0 < n div 32" "0 < n div 64"
    using assms by (simp_all add: div_greater_zero_iff)
  have d: "n div 2 div 2 = n div 4" "n div 4 div 2 = n div 8" "n div 8 div 2 = n div 16"
    "n div 16 div 2 = n div 32" "n div 32 div 2 = n div 64" "n div 64 div 2 = n div 128"
    by (simp_all add: div_mult2_eq [symmetric])
  show ?thesis
    by (simp add: bit_length_nat_pos [OF pos(1)] bit_length_nat_pos [OF pos(2)] bit_length_nat_pos [OF pos(3)]
      bit_length_nat_pos [OF pos(4)] bit_length_nat_pos [OF pos(5)] bit_length_nat_pos [OF pos(6)]
      bit_length_nat_pos [OF pos(7)] d)
qed

lemma length_encode_varint:
  "0 \<le> v \<Longrightarrow> length (encode_varint v) = max 1 ((bit_length v + 6) div 7)"
proof (induction "nat v" arbitrary: v rule: less_induct)
  case less
  show ?case
  proof (cases "v > 127")
    case True
    let ?w = "drop_bit 7 v"
    have w: "0 \<le> ?w" using less.prems by simp
    have IH: "length (encode_varint ?w) = max 1 ((bit_length ?w + 6) div 7)"
      using less.hyps [OF drop_bit_7_less [OF True] w] .
    have n: "nat ?w = nat v div 128"
      using less.prems by (simp add: drop_bit_eq_div nat_div_distrib)
    have "128 \<le> nat v" using True by simp
    then have bl: "bit_length v = 7 + bit_length ?w"
      using less.prems w by (simp add: bit_length_def n bit_length_nat_div_128)
    have "0 < nat ?w" using True by (simp add: drop_bit_eq_div)
    then have "1 \<le> bit_length ?w"
      using w by (simp add: bit_length_def bit_length_nat_pos)
    then show ?thesis
      by (simp add: encode_varint_big [OF True] IH bl)
  next
    case False
    then have "nat v < 2 ^ 7" using less.prems by simp
    then have "bit_length v \<le> 7"
      using less.prems by (simp add: bit_length_def bit_length_nat_le)
    then show ?thesis using False by (simp add: encode_varint_small)
  qed
qed

lemma encode_varint_cont_bits:
  "\<forall>b \<in> set (butlast (encode_varint v)). bit b 7"
proof (induction "nat v" arbitrary: v rule: less_induct)
  case less
  show ?case
  proof (cases "v > 127")
    case True
    have ne: "encode_varint (drop_bit 7 v) \<noteq> []"
      by (subst encode_varint_unfold) simp
    show ?thesis
      using less.hyps [OF drop_bit_7_less [OF True]] ne
      by (simp add: encode_varint_big [OF True] cont_byte_bit7)
  next
    case False
    then show ?thesis by (simp add: encode_varint_small)
  qed
qed

lemma encode_varint_last_bit:
  "\<not> bit (last (encode_varint v)) 7"
proof (induction "nat v" arbitrary: v rule: less_induct)
  case less
  show ?case
  proof (cases "v > 127")
    case True
    have ne: "encode_varint (drop_bit 7 v) \<noteq> []"
      by (subst encode_varint_unfold) simp
    show ?thesis
      using less.hyps [OF drop_bit_7_less [OF True]] ne
      by (simp add: encode_varint_big [OF True])
  next
    case False
    then show ?thesis by (simp add: encode_varint_small last_byte_bit7)
  qed
qed

lemma length_encode_varint_1: "length (encode_varint v) = 1 \<longleftrightarrow> v \<le> 127"
proof (cases "v > 127")
  case True
  have ne: "encode_varint (drop_bit 7 v) \<noteq> []"
    by (subst encode_varint_unfold) simp
  then show ?thesis using True by (simp add: encode_varint_big [OF True])
next
  case False
  then show ?thesis by (simp add: encode_varint_small)
qed



lemma pack_B_args_in_range:
  "0 \<le> (v AND 0x7F) OR 0x80" "(v AND 0x7F) OR 0x80 \<le> 255" "0 \<le> v AND 0x7F" "v AND 0x7F \<le> 255"
  for v :: int
proof -
  have "0 \<le> v mod 128" "v mod 128 < 128" by simp_all
  then show "0 \<le> (v AND 0x7F) OR 0x80" "(v AND 0x7F) OR 0x80 \<le> 255"
    "0 \<le> v AND 0x7F" "v AND 0x7F \<le> 255"
    unfolding and_7F_int or_80_int by simp_all
qed

text \<open>
  Claim C1. For an unsigned \<open>v\<close> the encoding is the canonical base-128 varint:
  \<open>ceil(bit_length(v) / 7)\<close> octets and at least one, the continuation bit set on
  every octet but the last and clear on the last, and a single octet exactly when
  \<open>v \<le> 127\<close>.
\<close>

theorem encode_varint_canonical:
  assumes "0 \<le> v"
  shows "length (encode_varint v) = max 1 ((bit_length v + 6) div 7)
       \<and> (\<forall>b \<in> set (butlast (encode_varint v)). bit b 7)
       \<and> \<not> bit (last (encode_varint v)) 7
       \<and> (length (encode_varint v) = 1 \<longleftrightarrow> v \<le> 127)"
  using assms length_encode_varint encode_varint_cont_bits encode_varint_last_bit
    length_encode_varint_1
  by blast

theorem encode_varint_canonical_witness:
  "(0::int) \<le> 200000 \<and> encode_varint 200000 = [0xC0, 0x9A, 0x0C]
   \<and> length (encode_varint 200000) = 3 \<and> bit_length 200000 = 18
   \<and> bit (encode_varint 200000 ! 0) 7 \<and> bit (encode_varint 200000 ! 1) 7
   \<and> \<not> bit (encode_varint 200000 ! 2) 7"
proof -
  have e: "encode_varint 200000 = [0xC0, 0x9A, 0x0C]" by code_simp
  have b: "bit_length 200000 = 18"
    by (simp add: bit_length_def bit_length_nat.simps)
  from encode_varint_canonical [of 200000] show ?thesis
    by (simp add: e b)
qed

text \<open>
  Claim C2. Reading \<open>encode_varint v\<close> back with the reference varint decoder gives
  \<open>v\<close> and consumes every octet, for \<open>v\<close> in \<open>[0, 2^63)\<close>; so do the gas limits
  \<open>0\<close> and \<open>2^32 - 1\<close>.
\<close>

theorem varint_roundtrip:
  "(0 \<le> v \<and> v < 2 ^ 63 \<longrightarrow> decode_varint (encode_varint v) = Some (v, []))
   \<and> decode_varint (encode_varint 0) = Some (0, [])
   \<and> decode_varint (encode_varint (2 ^ 32 - 1)) = Some (2 ^ 32 - 1, [])"
proof -
  have "(0::int) \<le> 2 ^ 32 - 1" by simp
  then show ?thesis
    using decode_encode_varint [of v "[]"] decode_encode_varint [of 0 "[]"]
      decode_encode_varint [of "2 ^ 32 - 1" "[]"]
    by (simp del: decode_varint.simps)
qed

theorem varint_roundtrip_witness:
  "(0::int) \<le> 300 \<and> (300::int) < 2 ^ 63 \<and> encode_varint 300 = [0xAC, 0x02]
   \<and> decode_varint [0xAC, 0x02] = Some (300, [])"
proof -
  have e: "encode_varint 300 = [0xAC, 0x02]" by code_simp
  from varint_roundtrip [of 300] show ?thesis
    by (simp add: e)
qed

text \<open>
  Claim C10. A negative \<open>value\<close> is not rejected: the loop body never runs, the one
  call of \<open>struct.pack\<close> gets \<open>value & 0x7F\<close>, which is in range, and the result is
  that single octet. Read back, it is the non-negative \<open>value & 0x7F\<close>, not the input.
\<close>

theorem encode_varint_negative:
  assumes "v < 0"
  shows "encode_varint v = [word_of_int (v AND 0x7F)]
       \<and> 0 \<le> v AND 0x7F \<and> v AND 0x7F \<le> 255
       \<and> decode_varint (encode_varint v) = Some (v AND 0x7F, [])
       \<and> v AND 0x7F \<noteq> v"
proof -
  have e: "encode_varint v = [word_of_int (v AND 0x7F)]"
    using assms by (simp add: encode_varint_small)
  have r: "0 \<le> v AND 0x7F" "v AND 0x7F \<le> 255"
    by (rule pack_B_args_in_range)+
  have "0 \<le> v mod 128" by simp
  then have d: "v AND 0x7F \<noteq> v"
    using assms unfolding and_7F_int by linarith
  have "decode_varint [word_of_int (v AND 0x7F)] = Some (v AND 0x7F, [])"
    using last_byte_bit7 [of v] last_byte_uint [of v] by (simp add: and_7F_int)
  with e r d show ?thesis by simp
qed

theorem encode_varint_negative_witness:
  "(-1::int) < 0 \<and> encode_varint (-1) = [0x7F] \<and> decode_varint (encode_varint (-1)) = Some (127, [])"
proof -
  have a: "(-1::int) AND 0x7F = 127" by simp
  from encode_varint_negative [of "-1"] show ?thesis
    by (simp add: a)
qed

section \<open>Fields read back by the reference parser\<close>

lemma foldl_append_fields:
  "foldl (\<lambda>acc x. acc @ f x) a xs = a @ concat (map f xs)"
  by (induction xs arbitrary: a) simp_all

lemma parse_length_delimited:
  assumes "\<not> bit t 7" and "uint t AND 7 = 2" and "drop_bit 3 (uint t) \<noteq> 0"
  shows "parse_fields (t # encode_varint (int (length p)) @ p @ rest) =
           map_option ((#) (drop_bit 3 (uint t), LengthDelimited p)) (parse_fields rest)"
proof -
  have d: "decode_varint (encode_varint (int (length p)) @ p @ rest) = Some (int (length p), p @ rest)"
    by (rule decode_encode_varint) simp
  show ?thesis
    using assms by (simp add: d del: drop_bit_int_def)
qed

lemma parse_varint_field:
  assumes "\<not> bit t 7" and "uint t AND 7 = 0" and "drop_bit 3 (uint t) \<noteq> 0" and "0 \<le> v"
  shows "parse_fields (t # encode_varint v @ rest) =
           map_option ((#) (drop_bit 3 (uint t), Varint v)) (parse_fields rest)"
proof -
  have d: "decode_varint (encode_varint v @ rest) = Some (v, rest)"
    using assms(4) by (rule decode_encode_varint)
  show ?thesis
    using assms(1-3) by (simp add: d del: drop_bit_int_def)
qed

declare parse_fields.simps(2) [simp del]

lemma tag_0a: "\<not> bit (0x0a::byte) 7" "uint (0x0a::byte) AND 7 = 2" "drop_bit 3 (uint (0x0a::byte)) = 1"
  by (simp_all add: bit_iff_odd drop_bit_eq_div)

lemma tag_12: "\<not> bit (0x12::byte) 7" "uint (0x12::byte) AND 7 = 2" "drop_bit 3 (uint (0x12::byte)) = 2"
  by (simp_all add: bit_iff_odd drop_bit_eq_div)

lemma tag_1a: "\<not> bit (0x1a::byte) 7" "uint (0x1a::byte) AND 7 = 2" "drop_bit 3 (uint (0x1a::byte)) = 3"
  by (simp_all add: bit_iff_odd drop_bit_eq_div)

lemma tag_18: "\<not> bit (0x18::byte) 7" "uint (0x18::byte) AND 7 = 0" "drop_bit 3 (uint (0x18::byte)) = 3"
  by (simp_all add: bit_iff_odd drop_bit_eq_div)

lemma tag_10: "\<not> bit (0x10::byte) 7" "uint (0x10::byte) AND 7 = 0" "drop_bit 3 (uint (0x10::byte)) = 2"
  by (simp_all add: bit_iff_odd drop_bit_eq_div)

lemma parse_field_1:
  "parse_fields (0x0a # encode_varint (int (length p)) @ p @ rest) =
     map_option ((#) (1, LengthDelimited p)) (parse_fields rest)"
  using parse_length_delimited [of "0x0a" p rest] by (simp only: tag_0a) simp

lemma parse_field_2:
  "parse_fields (0x12 # encode_varint (int (length p)) @ p @ rest) =
     map_option ((#) (2, LengthDelimited p)) (parse_fields rest)"
  using parse_length_delimited [of "0x12" p rest] by (simp only: tag_12) simp

lemma parse_field_3:
  "parse_fields (0x1a # encode_varint (int (length p)) @ p @ rest) =
     map_option ((#) (3, LengthDelimited p)) (parse_fields rest)"
  using parse_length_delimited [of "0x1a" p rest] by (simp only: tag_1a) simp

lemma parse_varint_3:
  "0 \<le> v \<Longrightarrow> parse_fields (0x18 # encode_varint v @ rest) =
     map_option ((#) (3, Varint v)) (parse_fields rest)"
  using parse_varint_field [of "0x18" v rest] by (simp only: tag_18) simp

lemma parse_varint_2:
  "0 \<le> v \<Longrightarrow> parse_fields (0x10 # encode_varint v @ rest) =
     map_option ((#) (2, Varint v)) (parse_fields rest)"
  using parse_varint_field [of "0x10" v rest] by (simp only: tag_10) simp

lemma parse_repeated_3:
  "parse_fields (concat (map (\<lambda>s. 0x1a # encode_varint (int (length s)) @ s) sigs)) =
     Some (map (\<lambda>s. (3, LengthDelimited s)) sigs)"
proof (induction sigs)
  case Nil
  then show ?case by simp
next
  case (Cons s sigs)
  then show ?case
    using parse_field_3 [of s "concat (map (\<lambda>s. 0x1a # encode_varint (int (length s)) @ s) sigs)"]
    by simp
qed

lemma create_tx_raw_bytes:
  "create_tx_raw tx_body auth_info signatures =
     0x0a # encode_varint (int (length tx_body)) @ tx_body
       @ 0x12 # encode_varint (int (length auth_info)) @ auth_info
       @ concat (map (\<lambda>s. 0x1a # encode_varint (int (length s)) @ s) signatures)"
  by (simp add: create_tx_raw_def pack_B_def foldl_append_fields)

lemma parse_create_tx_raw:
  "parse_fields (create_tx_raw tx_body auth_info signatures) =
     Some ((1, LengthDelimited tx_body) # (2, LengthDelimited auth_info)
             # map (\<lambda>s. (3, LengthDelimited s)) signatures)"
  unfolding create_tx_raw_bytes
  by (simp only: parse_field_1 parse_field_2 parse_repeated_3) simp

section \<open>Length-delimited fields\<close>

lemma tag_octet:
  assumes "1 \<le> f" and "f \<le> 15"
  shows "encode_varint (push_bit 3 f OR 2) = [word_of_int (push_bit 3 f OR 2)]"
proof -
  have "bit (2::int) n \<longleftrightarrow> n = 1" for n
    using bit_exp_iff [of 1 n, where ?'a = int] by simp
  then have "push_bit 3 f AND 2 = 0"
    by (intro bit_eqI) (auto simp: bit_and_iff bit_push_bit_iff)
  then have s: "push_bit 3 f OR 2 = 8 * f + 2"
    using plus_and_or [of "push_bit 3 f" 2] by (simp add: push_bit_eq_mult)
  have "0 \<le> 8 * f + 2" "8 * f + 2 \<le> 127" using assms by simp_all
  then have "(8 * f + 2) mod 128 = 8 * f + 2" by simp
  then show ?thesis
    unfolding s using assms by (simp add: encode_varint_small and_7F_int)
qed

lemma write_length_delimited_1:
  "write_length_delimited 1 p = 0x0a # encode_varint (int (length p)) @ p"
  using tag_octet [of 1] by (simp add: write_length_delimited_def)

lemma write_length_delimited_2:
  "write_length_delimited 2 p = 0x12 # encode_varint (int (length p)) @ p"
  using tag_octet [of 2] by (simp add: write_length_delimited_def)

lemma write_length_delimited_3:
  "write_length_delimited 3 p = 0x1a # encode_varint (int (length p)) @ p"
  using tag_octet [of 3] by (simp add: write_length_delimited_def)

lemma create_any_message_fields:
  "create_any_message type_url message_bytes =
     (case encode_utf8 type_url of
        Inl e \<Rightarrow> Inl e
      | Inr type_url_bytes \<Rightarrow>
          Inr (write_length_delimited 1 type_url_bytes @ write_length_delimited 2 message_bytes))"
  by (simp add: create_any_message_def pack_B_def write_length_delimited_1
      write_length_delimited_2 split: sum.splits)

lemma tag_value:
  "push_bit 3 (f::int) OR 2 = 8 * f + 2"
proof -
  have "bit (2::int) n \<longleftrightarrow> n = 1" for n
    using bit_exp_iff [of 1 n, where ?'a = int] by simp
  then have "push_bit 3 f AND 2 = 0"
    by (intro bit_eqI) (auto simp: bit_and_iff bit_push_bit_iff)
  then show ?thesis
    using plus_and_or [of "push_bit 3 f" 2] by (simp add: push_bit_eq_mult)
qed

lemma tag_byte:
  assumes "1 \<le> f" and "f \<le> 15"
  shows "uint (word_of_int (push_bit 3 f OR 2) :: byte) = 8 * f + 2"
    and "\<not> bit (word_of_int (push_bit 3 f OR 2) :: byte) 7"
    and "uint (word_of_int (push_bit 3 f OR 2) :: byte) AND 7 = 2"
    and "drop_bit 3 (uint (word_of_int (push_bit 3 f OR 2) :: byte)) = f"
proof -
  have r: "0 \<le> 8 * f + 2" "8 * f + 2 < 128" using assms by simp_all
  then have "(8 * f + 2) mod 256 = 8 * f + 2" by simp
  then show u: "uint (word_of_int (push_bit 3 f OR 2) :: byte) = 8 * f + 2"
    unfolding tag_value by (simp only: uint_word_of_int take_bit_eq_mod) simp
  have "(8 * f + 2) div 2 ^ 7 = 0" using r by simp
  then have "\<not> bit (8 * f + 2) 7" by (simp only: bit_iff_odd) simp
  then show "\<not> bit (word_of_int (push_bit 3 f OR 2) :: byte) 7"
    unfolding tag_value by (simp only: bit_word_of_int_iff simp_thms)
  have m: "(7::int) = mask 3" by (simp add: mask_eq_exp_minus_1)
  have "(8 * f + 2) AND mask 3 = (8 * f + 2) mod 2 ^ 3"
    by (simp only: take_bit_eq_mask [symmetric] take_bit_eq_mod)
  then show "uint (word_of_int (push_bit 3 f OR 2) :: byte) AND 7 = 2"
    unfolding u m by simp
  show "drop_bit 3 (uint (word_of_int (push_bit 3 f OR 2) :: byte)) = f"
    unfolding u by (simp add: drop_bit_eq_div)
qed

lemma write_length_delimited_bytes:
  assumes "1 \<le> f" and "f \<le> 15"
  shows "write_length_delimited f p =
           word_of_int (push_bit 3 f OR 2) # encode_varint (int (length p)) @ p"
  using tag_octet [OF assms] by (simp add: write_length_delimited_def)

lemma parse_write_length_delimited:
  assumes "1 \<le> f" and "f \<le> 15"
  shows "parse_fields (write_length_delimited f p @ rest) =
           map_option ((#) (f, LengthDelimited p)) (parse_fields rest)"
proof -
  let ?t = "word_of_int (push_bit 3 f OR 2) :: byte"
  have nz: "drop_bit 3 (uint ?t) \<noteq> 0"
    using tag_byte(4) [OF assms] assms by (simp del: drop_bit_int_def)
  have "parse_fields (?t # encode_varint (int (length p)) @ p @ rest) =
      map_option ((#) (drop_bit 3 (uint ?t), LengthDelimited p)) (parse_fields rest)"
    using tag_byte(2) [OF assms] tag_byte(3) [OF assms] nz by (rule parse_length_delimited)
  then show ?thesis
    by (simp only: write_length_delimited_bytes [OF assms] tag_byte(4) [OF assms]
        append_Cons append_assoc)
qed

lemma write_length_delimited_fun:
  "(\<lambda>s. 0x0a # encode_varint (int (length s)) @ s) = write_length_delimited 1"
  "(\<lambda>s. 0x1a # encode_varint (int (length s)) @ s) = write_length_delimited 3"
  by (rule ext, simp add: write_length_delimited_1, rule ext, simp add: write_length_delimited_3)

lemma create_tx_raw_fields:
  "create_tx_raw tx_body auth_info signatures =
     write_length_delimited 1 tx_body @ write_length_delimited 2 auth_info
       @ concat (map (write_length_delimited 3) signatures)"
  by (simp add: create_tx_raw_bytes write_length_delimited_1 write_length_delimited_2
      write_length_delimited_fun)

lemma create_thor_msgsend_fields:
  "create_thor_msgsend from_addr to_addr =
     (case thor_address_to_bytes from_addr of
        Inl e \<Rightarrow> Inl e
      | Inr from_bytes \<Rightarrow>
     (case thor_address_to_bytes to_addr of
        Inl e \<Rightarrow> Inl e
      | Inr to_bytes \<Rightarrow>
          Inr (write_length_delimited 1 from_bytes @ write_length_delimited 2 to_bytes)))"
  by (simp add: create_thor_msgsend_def pack_B_def write_length_delimited_1
      write_length_delimited_2 split: sum.splits)

lemma create_tx_body_fields:
  "create_tx_body messages memo =
     (case encode_utf8 memo of
        Inl e \<Rightarrow> Inl e
      | Inr memo_bytes \<Rightarrow>
          Inr (concat (map (write_length_delimited 1) messages)
                 @ write_length_delimited 2 memo_bytes @ [0x18] @ encode_varint 0))"
  by (simp add: create_tx_body_def pack_B_def foldl_append_fields write_length_delimited_2
      write_length_delimited_fun split: sum.splits)

lemma create_auth_info_fields:
  "create_auth_info sequence gas_limit =
     write_length_delimited 1 ([0x18] @ encode_varint sequence)
       @ write_length_delimited 2 ([0x10] @ encode_varint gas_limit)"
  by (simp add: create_auth_info_def pack_B_def Let_def write_length_delimited_1
      write_length_delimited_2)

text \<open>
  Claim C3. For a field number \<open>f\<close> in \<open>[1, 15]\<close> the length-delimited field is the
  one tag octet \<open>(f << 3) | 2\<close>, the varint of the payload length and the payload. The
  prefix is that varint: the varint reader gets \<open>len(p)\<close> from it and stops at the
  payload, and the parser reads the whole field back as field \<open>f\<close> with payload
  \<open>p\<close>. The field has \<open>1 + len(varint(len(p))) + len(p)\<close> octets, the varint taking
  \<open>ceil(bit_length(len(p)) / 7)\<close> and at least one, and its first octet is the tag.
  Every length-delimited field of the five composers is this field: fields 1 and 2 of
  \<open>create_thor_msgsend\<close>, \<open>create_any_message\<close> and \<open>create_auth_info\<close>, fields 1
  (repeated) and 2 of \<open>create_tx_body\<close>, fields 1, 2 and 3 (repeated) of
  \<open>create_tx_raw\<close>.
\<close>

theorem length_delimited_field:
  assumes "1 \<le> f" and "f \<le> 15"
  shows "write_length_delimited f p =
           word_of_int (push_bit 3 f OR 2) # encode_varint (int (length p)) @ p
       \<and> decode_varint (encode_varint (int (length p)) @ p @ rest) =
           Some (int (length p), p @ rest)
       \<and> parse_fields (write_length_delimited f p @ rest) =
           map_option ((#) (f, LengthDelimited p)) (parse_fields rest)
       \<and> length (write_length_delimited f p) =
           1 + length (encode_varint (int (length p))) + length p
       \<and> length (encode_varint (int (length p))) =
           max 1 ((bit_length (int (length p)) + 6) div 7)
       \<and> hd (write_length_delimited f p) = word_of_int (push_bit 3 f OR 2)
       \<and> uint (hd (write_length_delimited f p)) = push_bit 3 f OR 2
       \<and> create_thor_msgsend from_addr to_addr =
           (case thor_address_to_bytes from_addr of
              Inl e \<Rightarrow> Inl e
            | Inr from_bytes \<Rightarrow>
           (case thor_address_to_bytes to_addr of
              Inl e \<Rightarrow> Inl e
            | Inr to_bytes \<Rightarrow>
                Inr (write_length_delimited 1 from_bytes
                       @ write_length_delimited 2 to_bytes)))
       \<and> create_any_message type_url message_bytes =
           (case encode_utf8 type_url of
              Inl e \<Rightarrow> Inl e
            | Inr type_url_bytes \<Rightarrow>
                Inr (write_length_delimited 1 type_url_bytes
                       @ write_length_delimited 2 message_bytes))
       \<and> create_tx_body messages memo =
           (case encode_utf8 memo of
              Inl e \<Rightarrow> Inl e
            | Inr memo_bytes \<Rightarrow>
                Inr (concat (map (write_length_delimited 1) messages)
                       @ write_length_delimited 2 memo_bytes @ [0x18] @ encode_varint 0))
       \<and> create_auth_info sequence gas_limit =
           write_length_delimited 1 ([0x18] @ encode_varint sequence)
             @ write_length_delimited 2 ([0x10] @ encode_varint gas_limit)
       \<and> create_tx_raw tx_body auth_info signatures =
           write_length_delimited 1 tx_body @ write_length_delimited 2 auth_info
             @ concat (map (write_length_delimited 3) signatures)"
proof -
  note w = write_length_delimited_bytes [OF assms, of p]
  have d: "decode_varint (encode_varint (int (length p)) @ p @ rest) =
      Some (int (length p), p @ rest)"
    by (rule decode_encode_varint) simp
  note ps = parse_write_length_delimited [OF assms, of p rest]
  have l: "length (write_length_delimited f p) =
      1 + length (encode_varint (int (length p))) + length p"
    unfolding w by simp
  have v: "length (encode_varint (int (length p))) =
      max 1 ((bit_length (int (length p)) + 6) div 7)"
    by (rule length_encode_varint) simp
  have h: "hd (write_length_delimited f p) = word_of_int (push_bit 3 f OR 2)"
    unfolding w by simp
  have u: "uint (hd (write_length_delimited f p)) = push_bit 3 f OR 2"
    using tag_byte(1) [OF assms] by (simp only: h tag_value)
  from w d ps l v h u create_thor_msgsend_fields [of from_addr to_addr]
    create_any_message_fields [of type_url message_bytes]
    create_tx_body_fields [of messages memo]
    create_auth_info_fields [of sequence gas_limit]
    create_tx_raw_fields [of tx_body auth_info signatures]
  show ?thesis by (intro conjI)
qed

theorem length_delimited_field_witness:
  "(1::int) \<le> 2 \<and> (2::int) \<le> 15
   \<and> take 4 (write_length_delimited 2 (replicate 128 0xAB)) = [0x12, 0x80, 0x01, 0xAB]
   \<and> length (write_length_delimited 2 (replicate 128 0xAB)) = 131
   \<and> hd (write_length_delimited 2 (replicate 128 0xAB)) = 0x12
   \<and> decode_varint (encode_varint 128 @ replicate 128 0xAB) = Some (128, replicate 128 0xAB)
   \<and> parse_fields (write_length_delimited 2 (replicate 128 0xAB)) =
       Some [(2, LengthDelimited (replicate 128 0xAB))]"
proof -
  have e: "encode_varint 128 = [0x80, 0x01]" by code_simp
  have t: "push_bit 3 (2::int) OR 2 = 18" by simp
  have r: "replicate 128 (0xAB::byte) = 0xAB # replicate 127 0xAB"
    by (simp add: numeral_eq_Suc)
  from length_delimited_field [where f = 2 and p = "replicate 128 0xAB" and rest = "[]"
      and from_addr = "[]" and to_addr = "[]" and type_url = "[]" and message_bytes = "[]"
      and messages = "[]" and memo = "[]" and sequence = 0 and gas_limit = 0
      and tx_body = "[]" and auth_info = "[]" and signatures = "[]"]
  have "write_length_delimited 2 (replicate 128 0xAB) = 0x12 # 0x80 # 0x01 # replicate 128 0xAB"
    and "decode_varint (encode_varint 128 @ replicate 128 0xAB) = Some (128, replicate 128 0xAB)"
    and "parse_fields (write_length_delimited 2 (replicate 128 0xAB)) =
      Some [(2, LengthDelimited (replicate 128 0xAB))]"
    and "length (write_length_delimited 2 (replicate 128 0xAB)) = 131"
    and "hd (write_length_delimited 2 (replicate 128 0xAB)) = 0x12"
    by (auto simp add: e t)
  then show ?thesis
    by (simp add: r)
qed

text \<open>
  Claim C4. \<open>create_tx_raw\<close> returns field 1 with the body, field 2 with the auth
  info and one field 3 per signature in list order, each as tag, varint length and
  payload; every length prefix reads back as the length of its payload, and the
  reference parser recovers the body, the auth info and the signatures.
\<close>

theorem create_tx_raw_layout:
  "create_tx_raw tx_body auth_info signatures =
     ([0x0a] @ encode_varint (int (length tx_body)) @ tx_body)
       @ ([0x12] @ encode_varint (int (length auth_info)) @ auth_info)
       @ concat (map (\<lambda>sig. [0x1a] @ encode_varint (int (length sig)) @ sig) signatures)
   \<and> decode_varint (encode_varint (int (length tx_body))) = Some (int (length tx_body), [])
   \<and> decode_varint (encode_varint (int (length auth_info))) = Some (int (length auth_info), [])
   \<and> list_all (\<lambda>sig. decode_varint (encode_varint (int (length sig))) = Some (int (length sig), []))
        signatures
   \<and> parse_fields (create_tx_raw tx_body auth_info signatures) =
       Some ([(1, LengthDelimited tx_body), (2, LengthDelimited auth_info)]
               @ map (\<lambda>sig. (3, LengthDelimited sig)) signatures)"
proof -
  have d: "decode_varint (encode_varint (int (length x))) = Some (int (length x), [])"
    for x :: bytes
    using decode_encode_varint [of "int (length x)" "[]"] by simp
  have p: "parse_fields (create_tx_raw tx_body auth_info signatures) =
      Some ([(1, LengthDelimited tx_body), (2, LengthDelimited auth_info)]
              @ map (\<lambda>sig. (3, LengthDelimited sig)) signatures)"
    by (simp only: parse_create_tx_raw) simp
  have l: "create_tx_raw tx_body auth_info signatures =
      ([0x0a] @ encode_varint (int (length tx_body)) @ tx_body)
        @ ([0x12] @ encode_varint (int (length auth_info)) @ auth_info)
        @ concat (map (\<lambda>sig. [0x1a] @ encode_varint (int (length sig)) @ sig) signatures)"
    by (simp add: create_tx_raw_bytes)
  from l p show ?thesis
    by (simp only: d list_all_iff) simp
qed

section \<open>The address decoder\<close>

lemma hex_digit_value: "is_hex_digit c \<Longrightarrow> \<exists>d. digit_value c = Some d"
  by (auto simp: is_hex_digit_def digit_value_def)

lemma hex_digit_not_space: "is_hex_digit c \<Longrightarrow> \<not> is_space c"
  by (auto simp: is_hex_digit_def is_space_def)

lemma fromhex_hex_digits:
  "list_all is_hex_digit cs \<Longrightarrow> even (length cs) \<Longrightarrow>
     \<exists>bs. fromhex cs = Some bs \<and> length bs = length cs div 2"
proof (induction cs rule: fromhex.induct)
  case 1
  then show ?case by simp
next
  case (2 c)
  then show ?case by simp
next
  case (3 c d cs)
  from "3.prems" obtain hi lo where hl: "digit_value c = Some hi" "digit_value d = Some lo"
    using hex_digit_value [of c] hex_digit_value [of d] by auto
  from "3.prems" have ns: "\<not> is_space c" by (simp add: hex_digit_not_space)
  from "3.prems" have "list_all is_hex_digit cs" "even (length cs)" by simp_all
  with "3.IH"(2) [OF ns] hl obtain bs where "fromhex cs = Some bs" "length bs = length cs div 2"
    by auto
  then show ?case using ns hl by simp
qed

lemma thor_address_well_formed:
  assumes "well_formed_address a"
  shows "\<exists>bs. thor_address_to_bytes a = Inr bs \<and> length bs = 20"
proof -
  from assms have p: "startswith a (str_literal ''thor1'')" and l: "length (drop 5 a) = 40"
    and h: "list_all is_hex_digit (drop 5 a)"
    by (simp_all add: well_formed_address_def)
  have "even (length (drop 5 a))" unfolding l by simp
  from fromhex_hex_digits [OF h this] obtain bs
    where b: "fromhex (drop 5 a) = Some bs" "length bs = length (drop 5 a) div 2" by blast
  from b(2) have "length bs = 20" unfolding l by simp
  moreover have "thor_address_to_bytes a = Inr bs"
    unfolding thor_address_to_bytes_def Let_def using p l b(1) by (simp del: length_drop)
  ultimately show ?thesis by blast
qed

lemma thor_address_prefix_mismatch:
  "\<not> startswith a (str_literal ''thor1'') \<Longrightarrow>
     thor_address_to_bytes a = Inl (ValueError_prefix (take 5 a))"
  by (simp add: thor_address_to_bytes_def)

lemma thor_address_wrong_length:
  "startswith a (str_literal ''thor1'') \<Longrightarrow> length (drop 5 a) \<noteq> 40 \<Longrightarrow>
     thor_address_to_bytes a = Inl (ValueError_length (length (drop 5 a)))"
  by (simp add: thor_address_to_bytes_def)

lemma fromhex_rejects:
  "c \<in> set cs \<Longrightarrow> \<not> is_hex_digit c \<Longrightarrow> \<not> is_space c \<Longrightarrow> fromhex cs = None"
proof (induction cs rule: fromhex.induct)
  case 1
  then show ?case by simp
next
  case (2 x)
  then show ?case by simp
next
  case (3 x y cs)
  show ?case
  proof (cases "is_space x")
    case True
    with 3 show ?thesis by auto
  next
    case False
    show ?thesis
    proof (cases "digit_value x")
      case None
      then show ?thesis using False by simp
    next
      case (Some hi)
      then have hx: "is_hex_digit x"
        by (auto simp: is_hex_digit_def digit_value_def split: if_splits)
      show ?thesis
      proof (cases "digit_value y")
        case None
        then show ?thesis using False Some by simp
      next
        case lo: (Some lo)
        then have hy: "is_hex_digit y"
          by (auto simp: is_hex_digit_def digit_value_def split: if_splits)
        from "3.prems" hx hy have "c \<in> set cs" by auto
        with "3.IH"(2) [OF False] "3.prems" Some lo have "fromhex cs = None" by auto
        then show ?thesis using False Some lo by simp
      qed
    qed
  qed
qed

lemma thor_address_invalid_hex:
  assumes "startswith a (str_literal ''thor1'')" and "length (drop 5 a) = 40"
    and "c \<in> set (drop 5 a)" and "\<not> is_hex_digit c" and "\<not> is_space c"
  shows "thor_address_to_bytes a = Inl ValueError_hex"
  using assms fromhex_rejects [of c "drop 5 a"] by (simp add: thor_address_to_bytes_def)

text \<open>
  Claim C5. A well-formed address decodes to 20 octets, and a wrong prefix, a wrong
  length and a character that is neither a hexadecimal digit nor whitespace are
  rejected (the lemmas above). Whitespace in the remainder is not rejected: with the
  last two digits of the example address replaced by spaces the remainder still has 40
  characters, \<open>bytes.fromhex\<close> skips the spaces, and the function returns 19 octets.
\<close>

theorem thor_address_whitespace_accepted:
  "thor_address_to_bytes (str_literal ''thor1a3eb9d2cbea51896c33209f2bb5ff979a44201  '') =
     Inr [0xa3, 0xeb, 0x9d, 0x2c, 0xbe, 0xa5, 0x18, 0x96, 0xc3, 0x32, 0x09, 0xf2, 0xbb, 0x5f,
          0xf9, 0x79, 0xa4, 0x42, 0x01]"
  by (simp add: thor_address_to_bytes_def startswith_def str_literal_def is_space_def
      digit_value_def)

lemma example_address_bytes:
  "thor_address_to_bytes example_address =
     Inr [0xa3, 0xeb, 0x9d, 0x2c, 0xbe, 0xa5, 0x18, 0x96, 0xc3, 0x32, 0x09, 0xf2, 0xbb, 0x5f,
          0xf9, 0x79, 0xa4, 0x42, 0x01, 0xa2]"
  by (simp add: example_address_def thor_address_to_bytes_def startswith_def str_literal_def
      is_space_def digit_value_def)

lemma example_address_well_formed: "well_formed_address example_address"
  by (simp add: example_address_def well_formed_address_def startswith_def str_literal_def
      is_hex_digit_def)

lemma cosm1_rejected:
  "thor_address_to_bytes (str_literal ''cosm1a3eb9d2cbea51896c33209f2bb5ff979a44201a2'') =
     Inl (ValueError_prefix (str_literal ''cosm1''))"
  by (simp add: thor_address_to_bytes_def startswith_def str_literal_def)

section \<open>The transaction body\<close>

lemma encode_varint_0: "encode_varint 0 = [0x00]"
  by (simp add: encode_varint_small)

lemma parse_repeated_1:
  "parse_fields (concat (map (\<lambda>m. 0x0a # encode_varint (int (length m)) @ m) msgs) @ rest) =
     map_option ((@) (map (\<lambda>m. (1, LengthDelimited m)) msgs)) (parse_fields rest)"
proof (induction msgs)
  case Nil
  show ?case by (simp add: option.map_ident)
next
  case (Cons m msgs)
  then show ?case
    using parse_field_1 [of m
        "concat (map (\<lambda>m. 0x0a # encode_varint (int (length m)) @ m) msgs) @ rest"]
    by (simp add: option.map_comp comp_def)
qed

lemma parse_timeout_field: "parse_fields [0x18, 0x00] = Some [(3, Varint 0)]"
  using parse_varint_3 [of 0 "[]"] by (simp add: encode_varint_0)

lemma create_tx_body_bytes:
  assumes "encode_utf8 memo = Inr memo_bytes"
  shows "create_tx_body messages memo =
     Inr (concat (map (\<lambda>m. 0x0a # encode_varint (int (length m)) @ m) messages)
            @ 0x12 # encode_varint (int (length memo_bytes)) @ memo_bytes @ [0x18, 0x00])"
  using assms
  by (simp add: create_tx_body_def pack_B_def foldl_append_fields encode_varint_0)

lemma create_tx_body_error:
  "encode_utf8 memo = Inl e \<Longrightarrow> create_tx_body messages memo = Inl e"
  by (simp add: create_tx_body_def)

lemma parse_tx_body:
  "parse_fields (concat (map (\<lambda>m. 0x0a # encode_varint (int (length m)) @ m) messages)
            @ 0x12 # encode_varint (int (length memo_bytes)) @ memo_bytes @ [0x18, 0x00]) =
     Some (map (\<lambda>m. (1, LengthDelimited m)) messages
             @ [(2, LengthDelimited memo_bytes), (3, Varint 0)])"
  by (simp only: parse_repeated_1 parse_field_2 parse_timeout_field) simp

text \<open>
  Claim C6. When the memo has a UTF-8 encoding, the body is the message fields, then
  field 2 with the varint of the number of UTF-8 octets of the memo and those octets,
  then the timeout field; the parser reads the memo octets back from field 2. The empty
  memo gives the two octets \<open>0x12 0x00\<close>, a field of length zero.
\<close>

theorem create_tx_body_memo:
  assumes "encode_utf8 memo = Inr memo_bytes"
  shows "create_tx_body messages memo =
           Inr (concat (map (\<lambda>m. [0x0a] @ encode_varint (int (length m)) @ m) messages)
                  @ ([0x12] @ encode_varint (int (length memo_bytes)) @ memo_bytes)
                  @ [0x18, 0x00])
       \<and> (\<exists>body. create_tx_body messages memo = Inr body
             \<and> parse_fields body =
                 Some (map (\<lambda>m. (1, LengthDelimited m)) messages
                         @ [(2, LengthDelimited memo_bytes), (3, Varint 0)]))
       \<and> create_tx_body messages [] =
           Inr (concat (map (\<lambda>m. [0x0a] @ encode_varint (int (length m)) @ m) messages)
                  @ [0x12, 0x00] @ [0x18, 0x00])"
proof -
  have e: "create_tx_body messages [] =
      Inr (concat (map (\<lambda>m. [0x0a] @ encode_varint (int (length m)) @ m) messages)
             @ [0x12, 0x00] @ [0x18, 0x00])"
    using create_tx_body_bytes [of "[]" "[]" messages] by (simp add: encode_varint_0)
  have b: "create_tx_body messages memo =
      Inr (concat (map (\<lambda>m. [0x0a] @ encode_varint (int (length m)) @ m) messages)
             @ ([0x12] @ encode_varint (int (length memo_bytes)) @ memo_bytes)
             @ [0x18, 0x00])"
    using create_tx_body_bytes [OF assms, of messages] by simp
  have p: "\<exists>body. create_tx_body messages memo = Inr body
      \<and> parse_fields body =
          Some (map (\<lambda>m. (1, LengthDelimited m)) messages
                  @ [(2, LengthDelimited memo_bytes), (3, Varint 0)])"
    using create_tx_body_bytes [OF assms, of messages] parse_tx_body [of messages memo_bytes]
    by blast
  from b p e show ?thesis by blast
qed

theorem create_tx_body_memo_witness:
  "encode_utf8 [0xE9] = Inr [0xC3, 0xA9] \<and> length [0xE9 :: nat] = 1
   \<and> create_tx_body [] [0xE9] = Inr [0x12, 0x02, 0xC3, 0xA9, 0x18, 0x00]
   \<and> parse_fields [0x12, 0x02, 0xC3, 0xA9, 0x18, 0x00] =
       Some [(2, LengthDelimited [0xC3, 0xA9]), (3, Varint 0)]
   \<and> create_tx_body [] [] = Inr [0x12, 0x00, 0x18, 0x00]"
proof -
  have u: "encode_utf8 [0xE9] = Inr [0xC3, 0xA9]"
    by (simp add: utf8_char_def)
  have v: "encode_varint 2 = [0x02]" by (simp add: encode_varint_small)
  from create_tx_body_memo [OF u, of "[]"] u show ?thesis
    by (auto simp add: v simp del: encode_utf8.simps)
qed

section \<open>The transaction pipeline\<close>

lemma create_thor_transaction_result:
  "fst (create_thor_transaction from_addr to_addr memo w) =
     (case create_thor_msgsend from_addr to_addr of
        Inl e \<Rightarrow> Inl e
      | Inr msg_send \<Rightarrow>
     (case create_any_message (str_literal ''/types.MsgSend'') msg_send of
        Inl e \<Rightarrow> Inl e
      | Inr any_msg \<Rightarrow>
     (case create_tx_body [any_msg] memo of
        Inl e \<Rightarrow> Inl e
      | Inr tx_body \<Rightarrow>
          Inr (b64encode (create_tx_raw tx_body (create_auth_info 0 200000)
                 [replicate 64 0])))))"
  by (simp add: create_thor_transaction_def Let_def split: sum.splits)

lemma type_url_utf8:
  "encode_utf8 (str_literal ''/types.MsgSend'') =
     Inr [0x2f, 0x74, 0x79, 0x70, 0x65, 0x73, 0x2e, 0x4d, 0x73, 0x67, 0x53, 0x65, 0x6e, 0x64]"
  by (simp add: str_literal_def utf8_char_def)

lemma create_any_message_type_url:
  "create_any_message (str_literal ''/types.MsgSend'') msg =
     Inr (0x0a # encode_varint 14
            @ [0x2f, 0x74, 0x79, 0x70, 0x65, 0x73, 0x2e, 0x4d, 0x73, 0x67, 0x53, 0x65, 0x6e, 0x64]
            @ 0x12 # encode_varint (int (length msg)) @ msg)"
  by (simp add: create_any_message_def type_url_utf8 pack_B_def)

lemma parse_any_message:
  "parse_fields (0x0a # encode_varint 14
            @ [0x2f, 0x74, 0x79, 0x70, 0x65, 0x73, 0x2e, 0x4d, 0x73, 0x67, 0x53, 0x65, 0x6e, 0x64]
            @ 0x12 # encode_varint (int (length msg)) @ msg) =
     Some [(1, LengthDelimited
              [0x2f, 0x74, 0x79, 0x70, 0x65, 0x73, 0x2e, 0x4d, 0x73, 0x67, 0x53, 0x65, 0x6e, 0x64]),
           (2, LengthDelimited msg)]"
  using parse_field_1 [of "[0x2f, 0x74, 0x79, 0x70, 0x65, 0x73, 0x2e, 0x4d, 0x73, 0x67, 0x53,
      0x65, 0x6e, 0x64]" "0x12 # encode_varint (int (length msg)) @ msg"]
    parse_field_2 [of msg "[]"]
  by simp

lemma create_auth_info_bytes:
  "create_auth_info sequence gas_limit =
     0x0a # encode_varint (int (length (0x18 # encode_varint sequence)))
       @ (0x18 # encode_varint sequence)
       @ 0x12 # encode_varint (int (length (0x10 # encode_varint gas_limit)))
       @ (0x10 # encode_varint gas_limit)"
  by (simp add: create_auth_info_def pack_B_def Let_def)

lemma parse_create_auth_info:
  "parse_fields (create_auth_info sequence gas_limit) =
     Some [(1, LengthDelimited (0x18 # encode_varint sequence)),
           (2, LengthDelimited (0x10 # encode_varint gas_limit))]"
  unfolding create_auth_info_bytes
  using parse_field_1 [of "0x18 # encode_varint sequence"
      "0x12 # encode_varint (int (length (0x10 # encode_varint gas_limit)))
         @ (0x10 # encode_varint gas_limit)"]
    parse_field_2 [of "0x10 # encode_varint gas_limit" "[]"]
  by simp

lemma parse_signer_info:
  "0 \<le> sequence \<Longrightarrow> parse_fields (0x18 # encode_varint sequence) = Some [(3, Varint sequence)]"
  using parse_varint_3 [of sequence "[]"] by simp

lemma parse_fee:
  "0 \<le> gas_limit \<Longrightarrow> parse_fields (0x10 # encode_varint gas_limit) = Some [(2, Varint gas_limit)]"
  using parse_varint_2 [of gas_limit "[]"] by simp

lemma create_thor_msgsend_bytes:
  assumes "thor_address_to_bytes from_addr = Inr from_bytes"
    and "thor_address_to_bytes to_addr = Inr to_bytes"
  shows "create_thor_msgsend from_addr to_addr =
     Inr (0x0a # encode_varint (int (length from_bytes)) @ from_bytes
            @ 0x12 # encode_varint (int (length to_bytes)) @ to_bytes)"
  using assms by (simp add: create_thor_msgsend_def pack_B_def)

lemma parse_msgsend:
  "parse_fields (0x0a # encode_varint (int (length from_bytes)) @ from_bytes
            @ 0x12 # encode_varint (int (length to_bytes)) @ to_bytes) =
     Some [(1, LengthDelimited from_bytes), (2, LengthDelimited to_bytes)]"
  using parse_field_1 [of from_bytes "0x12 # encode_varint (int (length to_bytes)) @ to_bytes"]
    parse_field_2 [of to_bytes "[]"]
  by simp

lemma create_thor_msgsend_error:
  "thor_address_to_bytes from_addr = Inl e \<Longrightarrow> create_thor_msgsend from_addr to_addr = Inl e"
  "thor_address_to_bytes from_addr = Inr b \<Longrightarrow> thor_address_to_bytes to_addr = Inl e \<Longrightarrow>
     create_thor_msgsend from_addr to_addr = Inl e"
  by (simp_all add: create_thor_msgsend_def)

text \<open>
  What the pipeline builds from two decodable addresses and an encodable memo, with
  every layer read back by the reference parser.
\<close>

lemma pipeline_structure:
  assumes f: "thor_address_to_bytes from_addr = Inr from_bytes"
    and t: "thor_address_to_bytes to_addr = Inr to_bytes"
    and m: "encode_utf8 memo = Inr memo_bytes"
  shows "\<exists>raw body auth any msg signer fee.
      fst (create_thor_transaction from_addr to_addr memo w) = Inr (b64encode raw)
    \<and> parse_fields raw =
        Some [(1, LengthDelimited body), (2, LengthDelimited auth),
              (3, LengthDelimited (replicate 64 0))]
    \<and> parse_fields body =
        Some [(1, LengthDelimited any), (2, LengthDelimited memo_bytes), (3, Varint 0)]
    \<and> parse_fields any =
        Some [(1, LengthDelimited
                 [0x2f, 0x74, 0x79, 0x70, 0x65, 0x73, 0x2e, 0x4d, 0x73, 0x67, 0x53, 0x65,
                  0x6e, 0x64]),
              (2, LengthDelimited msg)]
    \<and> parse_fields msg =
        Some [(1, LengthDelimited from_bytes), (2, LengthDelimited to_bytes)]
    \<and> parse_fields auth = Some [(1, LengthDelimited signer), (2, LengthDelimited fee)]
    \<and> parse_fields signer = Some [(3, Varint 0)]
    \<and> parse_fields fee = Some [(2, Varint 200000)]"
proof -
  let ?msg = "0x0a # encode_varint (int (length from_bytes)) @ from_bytes
            @ 0x12 # encode_varint (int (length to_bytes)) @ to_bytes"
  let ?any = "0x0a # encode_varint 14
            @ [0x2f, 0x74, 0x79, 0x70, 0x65, 0x73, 0x2e, 0x4d, 0x73, 0x67, 0x53, 0x65, 0x6e, 0x64]
            @ 0x12 # encode_varint (int (length ?msg)) @ ?msg"
  let ?body = "concat (map (\<lambda>m. 0x0a # encode_varint (int (length m)) @ m) [?any])
            @ 0x12 # encode_varint (int (length memo_bytes)) @ memo_bytes @ [0x18, 0x00]"
  let ?auth = "create_auth_info 0 200000"
  let ?raw = "create_tx_raw ?body ?auth [replicate 64 0]"
  have 1: "create_thor_msgsend from_addr to_addr = Inr ?msg"
    using f t by (rule create_thor_msgsend_bytes)
  have 2: "create_any_message (str_literal ''/types.MsgSend'') ?msg = Inr ?any"
    by (rule create_any_message_type_url)
  have 3: "create_tx_body [?any] memo = Inr ?body"
    using m by (rule create_tx_body_bytes)
  have r: "fst (create_thor_transaction from_addr to_addr memo w) = Inr (b64encode ?raw)"
    by (simp only: create_thor_transaction_result 1 2 3 sum.case)
  have pr: "parse_fields ?raw =
      Some [(1, LengthDelimited ?body), (2, LengthDelimited ?auth),
            (3, LengthDelimited (replicate 64 0))]"
    by (simp only: parse_create_tx_raw) simp
  have pb: "parse_fields ?body =
      Some [(1, LengthDelimited ?any), (2, LengthDelimited memo_bytes), (3, Varint 0)]"
    by (simp only: parse_tx_body) simp
  have pa: "parse_fields ?any =
      Some [(1, LengthDelimited
               [0x2f, 0x74, 0x79, 0x70, 0x65, 0x73, 0x2e, 0x4d, 0x73, 0x67, 0x53, 0x65,
                0x6e, 0x64]),
            (2, LengthDelimited ?msg)]"
    by (rule parse_any_message)
  have pm: "parse_fields ?msg =
      Some [(1, LengthDelimited from_bytes), (2, LengthDelimited to_bytes)]"
    by (rule parse_msgsend)
  have pi: "parse_fields ?auth =
      Some [(1, LengthDelimited (0x18 # encode_varint 0)),
            (2, LengthDelimited (0x10 # encode_varint 200000))]"
    by (rule parse_create_auth_info)
  have ps: "parse_fields (0x18 # encode_varint 0) = Some [(3, Varint 0)]"
    by (rule parse_signer_info) simp
  have pf: "parse_fields (0x10 # encode_varint 200000) = Some [(2, Varint 200000)]"
    by (rule parse_fee) simp
  from r pr pb pa pm pi ps pf show ?thesis by blast
qed

text \<open>
  Claim C7. The end-to-end scenario: from and to are the example address, the memo is
  empty. The result is the base64 text of a raw transaction whose field 1 is a body
  with exactly one Any envelope, of type URL \<open>/types.MsgSend\<close>, an empty memo and
  timeout 0, whose field 2 is an auth info with exactly one signer info, of sequence 0,
  and a fee of gas limit 200000, and whose one signature is 64 zero octets.
\<close>

theorem end_to_end_scenario:
  "\<exists>raw body auth any msg signer fee type_url.
      fst (create_thor_transaction example_address example_address [] w) = Inr (b64encode raw)
    \<and> parse_fields raw =
        Some [(1, LengthDelimited body), (2, LengthDelimited auth),
              (3, LengthDelimited (replicate 64 0))]
    \<and> parse_fields body =
        Some [(1, LengthDelimited any), (2, LengthDelimited []), (3, Varint 0)]
    \<and> parse_fields any = Some [(1, LengthDelimited type_url), (2, LengthDelimited msg)]
    \<and> encode_utf8 (str_literal ''/types.MsgSend'') = Inr type_url
    \<and> parse_fields auth = Some [(1, LengthDelimited signer), (2, LengthDelimited fee)]
    \<and> parse_fields signer = Some [(3, Varint 0)]
    \<and> parse_fields fee = Some [(2, Varint 200000)]"
proof -
  have m: "encode_utf8 [] = Inr []" by simp
  from pipeline_structure [OF example_address_bytes example_address_bytes m, of w]
  show ?thesis
    unfolding type_url_utf8 by blast
qed

text \<open>
  Standard output is the only state a call touches, and the value returned does not
  depend on it: a call gives the same value from any two states of the stream, and so
  when it is repeated after itself.
\<close>

lemma create_thor_transaction_ignores_stdout:
  "fst (create_thor_transaction from_addr to_addr memo w) =
     fst (create_thor_transaction from_addr to_addr memo w')
   \<and> fst (create_thor_transaction from_addr to_addr memo
            (snd (create_thor_transaction from_addr to_addr memo w))) =
       fst (create_thor_transaction from_addr to_addr memo w)"
  by (simp only: create_thor_transaction_result)

text \<open>
  Claim C9. For two well-formed addresses and any memo: a memo without a UTF-8 encoding
  raises; otherwise the transaction has one signer info of sequence 0, a fee of gas
  limit 200000, timeout height 0 and exactly one signature of 64 zero octets, and is
  the same whatever was printed before. Sequence, gas limit, timeout and signature are
  no arguments of the function.
\<close>

theorem pipeline_constants:
  assumes "well_formed_address from_addr" and "well_formed_address to_addr"
  shows "case encode_utf8 memo of
           Inl e \<Rightarrow> fst (create_thor_transaction from_addr to_addr memo w) = Inl e
         | Inr memo_bytes \<Rightarrow>
            (\<exists>raw body auth any signer fee.
                fst (create_thor_transaction from_addr to_addr memo w) = Inr (b64encode raw)
              \<and> fst (create_thor_transaction from_addr to_addr memo w') = Inr (b64encode raw)
              \<and> parse_fields raw =
                  Some [(1, LengthDelimited body), (2, LengthDelimited auth),
                        (3, LengthDelimited (replicate 64 0))]
              \<and> parse_fields body =
                  Some [(1, LengthDelimited any), (2, LengthDelimited memo_bytes),
                        (3, Varint 0)]
              \<and> parse_fields auth =
                  Some [(1, LengthDelimited signer), (2, LengthDelimited fee)]
              \<and> parse_fields signer = Some [(3, Varint 0)]
              \<and> parse_fields fee = Some [(2, Varint 200000)])"
proof -
  from assms obtain from_bytes to_bytes
    where f: "thor_address_to_bytes from_addr = Inr from_bytes"
      and t: "thor_address_to_bytes to_addr = Inr to_bytes"
    using thor_address_well_formed by blast
  show ?thesis
  proof (cases "encode_utf8 memo")
    case (Inl e)
    have "create_thor_msgsend from_addr to_addr =
        Inr (0x0a # encode_varint (int (length from_bytes)) @ from_bytes
               @ 0x12 # encode_varint (int (length to_bytes)) @ to_bytes)"
      using f t by (rule create_thor_msgsend_bytes)
    then have "fst (create_thor_transaction from_addr to_addr memo w) = Inl e"
      by (simp only: create_thor_transaction_result create_any_message_type_url
          create_tx_body_error [OF Inl] sum.case)
    with Inl show ?thesis by simp
  next
    case (Inr memo_bytes)
    have d: "fst (create_thor_transaction from_addr to_addr memo w') =
        fst (create_thor_transaction from_addr to_addr memo w)"
      by (simp only: create_thor_transaction_result)
    from pipeline_structure [OF f t Inr, of w] d Inr show ?thesis
      by (simp only: sum.case) blast
  qed
qed

theorem pipeline_constants_witness:
  "well_formed_address example_address
   \<and> (\<exists>raw body auth any signer fee.
         fst (create_thor_transaction example_address example_address []
                \<lparr>stdout = []\<rparr>) = Inr (b64encode raw)
       \<and> parse_fields raw =
           Some [(1, LengthDelimited body), (2, LengthDelimited auth),
                 (3, LengthDelimited (replicate 64 0))]
       \<and> parse_fields body =
           Some [(1, LengthDelimited any), (2, LengthDelimited []), (3, Varint 0)]
       \<and> parse_fields auth = Some [(1, LengthDelimited signer), (2, LengthDelimited fee)]
       \<and> parse_fields signer = Some [(3, Varint 0)]
       \<and> parse_fields fee = Some [(2, Varint 200000)])"
proof -
  have m: "encode_utf8 [] = Inr []" by simp
  from pipeline_constants [OF example_address_well_formed example_address_well_formed,
      of "[]" "\<lparr>stdout = []\<rparr>" "\<lparr>stdout = []\<rparr>"]
  show ?thesis
    unfolding m sum.case using example_address_well_formed by blast
qed

section \<open>The library models and the scenario, computed\<close>

lemma b64encode_examples:
  "b64encode [] = str_literal ''''"
  "b64encode [0x01, 0x02, 0x03, 0x04] = str_literal ''AQIDBA==''"
  "b64encode [0x01, 0x02, 0x03, 0x04, 0x05] = str_literal ''AQIDBAU=''"
  "b64encode [0xfb, 0xff, 0xbf] = str_literal ''+/+/''"
  by (simp_all add: b64_char_def b64_alphabet_def str_literal_def)

lemma str_nat_examples: "str_nat 0 = str_literal ''0''" "str_nat 148 = str_literal ''148''"
  by (simp_all add: str_literal_def)

lemma encode_varint_200000: "encode_varint 200000 = [0xC0, 0x9A, 0x0C]"
  by code_simp

lemma example_raw:
  "fst (create_thor_transaction example_address example_address [] w) =
     Inr (b64encode
       [0x0a, 0x44, 0x0a, 0x3e, 0x0a, 0x0e, 0x2f, 0x74, 0x79, 0x70, 0x65, 0x73, 0x2e, 0x4d,
        0x73, 0x67, 0x53, 0x65, 0x6e, 0x64, 0x12, 0x2c,
        0x0a, 0x14, 0xa3, 0xeb, 0x9d, 0x2c, 0xbe, 0xa5, 0x18, 0x96, 0xc3, 0x32, 0x09, 0xf2,
        0xbb, 0x5f, 0xf9, 0x79, 0xa4, 0x42, 0x01, 0xa2,
        0x12, 0x14, 0xa3, 0xeb, 0x9d, 0x2c, 0xbe, 0xa5, 0x18, 0x96, 0xc3, 0x32, 0x09, 0xf2,
        0xbb, 0x5f, 0xf9, 0x79, 0xa4, 0x42, 0x01, 0xa2,
        0x12, 0x00, 0x18, 0x00,
        0x12, 0x0a, 0x0a, 0x02, 0x18, 0x00, 0x12, 0x04, 0x10, 0xc0, 0x9a, 0x0c,
        0x1a, 0x40,
        0, 0, 0, 0, 0, 0, 0, 0, 0, 0, 0, 0, 0, 0, 0, 0, 0, 0, 0, 0, 0, 0, 0, 0, 0, 0, 0, 0,
        0, 0, 0, 0, 0, 0, 0, 0, 0, 0, 0, 0, 0, 0, 0, 0, 0, 0, 0, 0, 0, 0, 0, 0, 0, 0, 0, 0,
        0, 0, 0, 0, 0, 0, 0, 0])"
proof -
  have m: "encode_utf8 [] = Inr []" by simp
  have r: "replicate 64 (0::byte) =
      [0, 0, 0, 0, 0, 0, 0, 0, 0, 0, 0, 0, 0, 0, 0, 0, 0, 0, 0, 0, 0, 0, 0, 0, 0, 0, 0, 0,
       0, 0, 0, 0, 0, 0, 0, 0, 0, 0, 0, 0, 0, 0, 0, 0, 0, 0, 0, 0, 0, 0, 0, 0, 0, 0, 0, 0,
       0, 0, 0, 0, 0, 0, 0, 0]"
    by (simp add: numeral_eq_Suc)
  show ?thesis
    unfolding create_thor_transaction_result
    by (simp add: create_thor_msgsend_bytes [OF example_address_bytes example_address_bytes]
        create_any_message_type_url create_tx_body_bytes [OF m] create_tx_raw_bytes
        create_auth_info_bytes encode_varint_small encode_varint_200000 r)
qed


lemma example_transaction_base64:
  "fst (create_thor_transaction example_address example_address [] w) =
     Inr (str_literal (''CkQKPgoOL3R5cGVzLk1zZ1NlbmQSLAoUo+udLL6lGJbDMgnyu1/5eaRCAaISFKPrnSy+pRiW''
       @ ''wzIJ8rtf+XmkQgGiEgAYABIKCgIYABIEEMCaDBpAAAAAAAAAAAAAAAAAAAAAAAAAAAAAAAAA''
       @ ''AAAAAAAAAAAAAAAAAAAAAAAAAAAAAAAAAAAAAAAAAAAAAAAAAAAAAA==''))"
  unfolding example_raw
  by (simp add: b64_char_def b64_alphabet_def str_literal_def)

lemma length_b64encode: "length (b64encode xs) = 4 * ((length xs + 2) div 3)"
proof (induction xs rule: b64encode.induct)
  case (4 a b c rest)
  have "(5 + length rest) div 3 = Suc ((length rest + 2) div 3)" by presburger
  with 4 show ?case by (simp add: Let_def)
qed (simp_all add: Let_def)

text \<open>
  The spec's second scenario, and what the first one prints: the lines written before
  the exception stay on standard output.
\<close>

lemma cosm1_transaction_fails:
  "create_thor_transaction (str_literal ''cosm1a3eb9d2cbea51896c33209f2bb5ff979a44201a2'')
       example_address [] \<lparr>stdout = []\<rparr> =
     (Inl (ValueError_prefix (str_literal ''cosm1'')),
      \<lparr>stdout =
         [0x1F527 # str_literal '' Creating THORChain transaction'',
          str_literal ''   From: cosm1a3eb9d2cbea51896c33209f2bb5ff979a44201a2'',
          str_literal ''   To: thor1a3eb9d2cbea51896c33209f2bb5ff979a44201a2'',
          str_literal ''   Memo: '']\<rparr>)"
  by (simp add: create_thor_transaction_def create_thor_msgsend_def cosm1_rejected print_def
      example_address_def) (simp add: str_literal_def)

lemma example_transaction_stdout:
  "stdout (snd (create_thor_transaction example_address example_address [] \<lparr>stdout = []\<rparr>)) =
     [0x1F527 # str_literal '' Creating THORChain transaction'',
      str_literal ''   From: thor1a3eb9d2cbea51896c33209f2bb5ff979a44201a2'',
      str_literal ''   To: thor1a3eb9d2cbea51896c33209f2bb5ff979a44201a2'',
      str_literal ''   Memo: '',
      0x1F4E6 # str_literal '' MsgSend: 44 bytes'',
      0x1F4E6 # str_literal '' Any message: 62 bytes'',
      0x1F4E6 # str_literal '' TxBody: 68 bytes'',
      0x1F4E6 # str_literal '' AuthInfo: 10 bytes'',
      0x1F4E6 # str_literal '' Signature: 64 bytes'',
      0x1F4E6 # str_literal '' TxRaw: 148 bytes'',
      0x1F4E6 # str_literal '' Base64 encoded: 200 chars'']"
proof -
  have m: "encode_utf8 [] = Inr []" by simp
  show ?thesis
    by (simp add: create_thor_transaction_def
        create_thor_msgsend_bytes [OF example_address_bytes example_address_bytes]
        create_any_message_type_url create_tx_body_bytes [OF m] create_tx_raw_bytes
        create_auth_info_bytes encode_varint_small encode_varint_200000 print_def size_line_def
        length_b64encode Let_def)
      (simp add: str_literal_def example_address_def)
qed

end
